theory Spec2Isabelle
  imports Main "HOL-Library.Sublist"
begin

section \<open>JavaScript values appearing in webpack.config.js\<close>

text \<open>
  A JavaScript string is a sequence of UTF-16 code units. The strings that reach the
  module from outside (the value of \<^verbatim>\<open>process.env.NODE_ENV\<close>, the file names the
  bundler tests the rules against) are modelled as lists of code units; the string
  literals of the file itself are ASCII and are written as HOL strings, embedded by
  \<open>js\<close>.
\<close>

type_synonym code_unit = nat
type_synonym js_string = "code_unit list"

definition js :: "string \<Rightarrow> js_string" where
  "js s = map of_char s"

text \<open>
  The regular-expression literals of the file use only literal characters, one character
  class, one optional character, groups of literal alternatives and the end anchor
  \<^verbatim>\<open>$\<close>. A literal \<^verbatim>\<open>/src/flags\<close> is its sequence of items and its
  \<^verbatim>\<open>i\<close> flag.
\<close>

datatype rx_item =
    Chr char
  | Cls string
  | Opt_chr char
  | Grp "string list"
  | Eoi

record regex =
  source :: "rx_item list"
  ignoreCase :: bool

text \<open>A rule's \<^verbatim>\<open>exclude\<close> is a regular expression or an array of path strings.\<close>

datatype condition = Cond_regex regex | Cond_strings "string list"

text \<open>Option objects handed to loaders and plugins.\<close>

datatype js_value =
    JBool bool
  | JNum int
  | JStr string
  | JArr "js_value list"
  | JObj "(string \<times> js_value) list"

text \<open>
  An entry of a \<^verbatim>\<open>use\<close> chain: the imported value
  \<^verbatim>\<open>MiniCssExtractPlugin.loader\<close>, a loader name, or an object
  \<^verbatim>\<open>{loader: ..., options: ...}\<close>. \<^verbatim>\<open>use\<close> itself is an array of
  entries or a single entry.
\<close>

datatype use_item =
    Extract_loader
  | Loader_name string
  | Loader_obj string js_value

datatype use_spec = Use_array "use_item list" | Use_single use_item

record rule =
  test :: regex
  exclude :: "condition option"
  use :: "use_spec option"
  loader :: "string option"
  type :: "string option"

datatype plugin = MiniCssExtractPlugin | HtmlWebpackPlugin js_value

record output_cfg =
  path :: string
  clean :: bool

record module_cfg =
  rules :: "rule list"

record resolve_cfg =
  "alias" :: "(string \<times> string) list"
  extensions :: "string list"

text \<open>
  The configuration object. \<^verbatim>\<open>mode\<close> and \<^verbatim>\<open>devtool\<close> are properties the
  object literal does not have; they exist only once assigned.
\<close>

record build_config =
  entry :: string
  "output" :: output_cfg
  plugins :: "plugin list"
  module :: module_cfg
  resolve :: resolve_cfg
  mode :: "string option"
  devtool :: "string option"

section \<open>Loading the module\<close>

text \<open>
  What Node supplies when it evaluates the file: the environment variable (absent, or a
  string), the module's directory \<^verbatim>\<open>__dirname\<close>, and the library function
  \<^verbatim>\<open>path.resolve\<close>, which is not part of this repository and is a parameter.
\<close>

record node_host =
  NODE_ENV :: "js_string option"
  dirname :: string
  path_resolve :: "string \<Rightarrow> string \<Rightarrow> string"

text \<open>\<^verbatim>\<open>/\.s[ac]ss$/i\<close>\<close>

definition sass_test :: regex where
  "sass_test =
     \<lparr>source = [Chr CHR ''.'', Chr CHR ''s'', Cls ''ac'', Chr CHR ''s'', Chr CHR ''s'', Eoi],
      ignoreCase = True\<rparr>"

text \<open>\<^verbatim>\<open>/\.css$/i\<close>\<close>

definition css_test :: regex where
  "css_test =
     \<lparr>source = [Chr CHR ''.'', Chr CHR ''c'', Chr CHR ''s'', Chr CHR ''s'', Eoi],
      ignoreCase = True\<rparr>"

text \<open>\<^verbatim>\<open>/\.?js$/\<close>\<close>

definition js_test :: regex where
  "js_test =
     \<lparr>source = [Opt_chr CHR ''.'', Chr CHR ''j'', Chr CHR ''s'', Eoi],
      ignoreCase = False\<rparr>"

text \<open>\<^verbatim>\<open>/\.(ts|tsx)$/i\<close>\<close>

definition ts_test :: regex where
  "ts_test =
     \<lparr>source = [Chr CHR ''.'', Grp [''ts'', ''tsx''], Eoi],
      ignoreCase = True\<rparr>"

text \<open>\<^verbatim>\<open>/\.(eot|svg|ttf|woff|woff2|png|jpg|gif)$/i\<close>\<close>

definition asset_test :: regex where
  "asset_test =
     \<lparr>source = [Chr CHR ''.'',
        Grp [''eot'', ''svg'', ''ttf'', ''woff'', ''woff2'', ''png'', ''jpg'', ''gif''], Eoi],
      ignoreCase = True\<rparr>"

text \<open>\<^verbatim>\<open>/node_modules/\<close>\<close>

definition node_modules_rx :: regex where
  "node_modules_rx = \<lparr>source = map Chr ''node_modules'', ignoreCase = False\<rparr>"

text \<open>
  The object literal bound to \<^verbatim>\<open>config\<close> (lines 8 to 78). It mentions the two
  constants evaluated before it, \<^verbatim>\<open>stylesHandler\<close> and \<^verbatim>\<open>isProduction\<close>;
  the conditional in the first rule is evaluated here, when the literal is built.
\<close>

definition config_literal :: "node_host \<Rightarrow> use_item \<Rightarrow> bool \<Rightarrow> build_config" where
  "config_literal host stylesHandler isProduction = \<lparr>
     entry = ''./src/index.js'',
     output = \<lparr>path = path_resolve host (dirname host) ''dist'', clean = True\<rparr>,
     plugins = [MiniCssExtractPlugin,
                HtmlWebpackPlugin (JObj [(''template'', JStr ''index.html'')])],
     module = \<lparr>rules = [
       \<lparr>test = sass_test,
        exclude = None,
        use = Some (Use_array [
          (if isProduction then stylesHandler else Loader_name ''style-loader''),
          Loader_obj ''css-loader'' (JObj [
            (''sourceMap'', JBool True),
            (''importLoaders'', JNum 1),
            (''modules'', JObj [(''mode'', JStr ''icss'')])]),
          Loader_name ''postcss-loader'',
          Loader_name ''sass-loader'']),
        loader = None, type = None\<rparr>,
       \<lparr>test = css_test,
        exclude = None,
        use = Some (Use_array [stylesHandler, Loader_name ''css-loader'',
                               Loader_name ''postcss-loader'']),
        loader = None, type = None\<rparr>,
       \<lparr>test = js_test,
        exclude = Some (Cond_regex node_modules_rx),
        use = Some (Use_single (Loader_obj ''babel-loader'' (JObj [
          (''presets'', JArr [JStr ''@babel/preset-env'', JStr ''@babel/preset-react''])]))),
        loader = None, type = None\<rparr>,
       \<lparr>test = ts_test,
        exclude = Some (Cond_strings [''/node_modules/'']),
        use = None,
        loader = Some ''ts-loader'', type = None\<rparr>,
       \<lparr>test = asset_test,
        exclude = None,
        use = None,
        loader = None, type = Some ''asset''\<rparr>]\<rparr>,
     resolve = \<lparr>alias = [(''@'', path_resolve host (dirname host) ''./src/'')],
                extensions = [''.tsx'', ''.ts'', ''.jsx'', ''.js'', ''...'']\<rparr>,
     mode = None,
     devtool = None\<rparr>"

text \<open>
  The module's state after the file has been evaluated: its top-level constants, and
  the store that holds the object \<^verbatim>\<open>config\<close> refers to. The object is allocated
  once, here; \<^verbatim>\<open>NODE_ENV\<close> is compared with \<^verbatim>\<open>==\<close>, which is false when the
  variable is undefined and compares code units otherwise.
\<close>

type_synonym addr = nat

record module_state =
  stylesHandler :: use_item
  isProduction :: bool
  config :: addr
  heap :: "addr \<rightharpoonup> build_config"

definition load_module :: "node_host \<Rightarrow> module_state" where
  "load_module host =
     (let sh = Extract_loader;
          ip = (NODE_ENV host = Some (js ''production''))
      in \<lparr>stylesHandler = sh, isProduction = ip, config = 0,
          heap = [0 \<mapsto> config_literal host sh ip]\<rparr>)"

section \<open>The exported factory\<close>

text \<open>A property assignment \<^verbatim>\<open>obj.field = value\<close> on the object at an address.\<close>

definition assign ::
    "addr \<Rightarrow> (build_config \<Rightarrow> build_config) \<Rightarrow> module_state \<Rightarrow> module_state" where
  "assign a f st = st\<lparr>heap := (heap st)(a := map_option f (heap st a))\<rparr>"

text \<open>
  \<^verbatim>\<open>module.exports\<close> (lines 80 to 88): it takes no argument, reads
  \<^verbatim>\<open>isProduction\<close>, assigns to the object \<^verbatim>\<open>config\<close> refers to and returns
  that reference.
\<close>

definition exports :: "module_state \<Rightarrow> addr \<times> module_state" where
  "exports st =
     (if isProduction st then
        (let st1 = assign (config st) (\<lambda>c. c\<lparr>mode := Some ''production''\<rparr>) st
         in (config st, st1))
      else
        (let st1 = assign (config st) (\<lambda>c. c\<lparr>mode := Some ''development''\<rparr>) st;
             st2 = assign (config st) (\<lambda>c. c\<lparr>devtool := Some ''source-map''\<rparr>) st1
         in (config st, st2)))"

text \<open>The module state after \<open>n\<close> invocations of the factory.\<close>

fun invoke_n :: "nat \<Rightarrow> module_state \<Rightarrow> module_state" where
  "invoke_n 0 st = st"
| "invoke_n (Suc n) st = invoke_n n (snd (exports st))"

text \<open>The object the caller holds after an invocation: the returned reference, read in
  the store the invocation left.\<close>

definition returned :: "addr \<times> module_state \<Rightarrow> build_config option" where
  "returned r = heap (snd r) (fst r)"

section \<open>Testing a file name against a pattern\<close>

text \<open>
  \<^verbatim>\<open>RegExp.prototype.test\<close> for the items above. With the \<^verbatim>\<open>i\<close> flag two code
  units match when their canonical forms agree (ECMAScript \<^verbatim>\<open>Canonicalize\<close>, without
  the \<^verbatim>\<open>u\<close> flag): the code unit is upper-cased, and the result is kept only if it
  is a single code unit and does not turn a non-ASCII code unit into an ASCII one. The
  upper-casing of ASCII is written out; the Unicode table for the other code units is
  the parameter \<open>upper\<close>.
\<close>

definition ascii_upper :: "code_unit \<Rightarrow> code_unit" where
  "ascii_upper c = (if 97 \<le> c \<and> c \<le> 122 then c - 32 else c)"

definition to_uppercase :: "(code_unit \<Rightarrow> code_unit list) \<Rightarrow> code_unit \<Rightarrow> code_unit list" where
  "to_uppercase upper ch = (if ch < 128 then [ascii_upper ch] else upper ch)"

definition canonicalize :: "(code_unit \<Rightarrow> code_unit list) \<Rightarrow> bool \<Rightarrow> code_unit \<Rightarrow> code_unit" where
  "canonicalize upper ic ch =
     (if \<not> ic then ch
      else case to_uppercase upper ch of
             [cu] \<Rightarrow> (if ch \<ge> 128 \<and> cu < 128 then ch else cu)
           | _ \<Rightarrow> ch)"

definition chr_match :: "(code_unit \<Rightarrow> code_unit list) \<Rightarrow> bool \<Rightarrow> char \<Rightarrow> code_unit \<Rightarrow> bool" where
  "chr_match upper ic p c = (canonicalize upper ic c = canonicalize upper ic (of_char p))"

text \<open>
  Matching returns the inputs that may remain after the matched part, one for each way
  of matching; the empty list is failure.
\<close>

fun lit_match ::
    "(code_unit \<Rightarrow> code_unit list) \<Rightarrow> bool \<Rightarrow> string \<Rightarrow> js_string \<Rightarrow> js_string list" where
  "lit_match upper ic [] s = [s]"
| "lit_match upper ic (p # ps) [] = []"
| "lit_match upper ic (p # ps) (c # s) =
     (if chr_match upper ic p c then lit_match upper ic ps s else [])"

fun item_match ::
    "(code_unit \<Rightarrow> code_unit list) \<Rightarrow> bool \<Rightarrow> rx_item \<Rightarrow> js_string \<Rightarrow> js_string list" where
  "item_match upper ic (Chr p) s = lit_match upper ic [p] s"
| "item_match upper ic (Cls ps) s =
     (case s of
        [] \<Rightarrow> []
      | c # t \<Rightarrow> (if list_ex (\<lambda>p. chr_match upper ic p c) ps then [t] else []))"
| "item_match upper ic (Opt_chr p) s = lit_match upper ic [p] s @ [s]"
| "item_match upper ic (Grp alts) s = concat (map (\<lambda>a. lit_match upper ic a s) alts)"
| "item_match upper ic Eoi s = (if s = [] then [s] else [])"

fun seq_match ::
    "(code_unit \<Rightarrow> code_unit list) \<Rightarrow> bool \<Rightarrow> rx_item list \<Rightarrow> js_string \<Rightarrow> js_string list" where
  "seq_match upper ic [] s = [s]"
| "seq_match upper ic (i # is) s =
     concat (map (seq_match upper ic is) (item_match upper ic i s))"

text \<open>The pattern is tried at every start position of the input.\<close>

definition rx_test :: "(code_unit \<Rightarrow> code_unit list) \<Rightarrow> regex \<Rightarrow> js_string \<Rightarrow> bool" where
  "rx_test upper r s =
     list_ex (\<lambda>t. seq_match upper (ignoreCase r) (source r) t \<noteq> []) (suffixes s)"

section \<open>Notions used to state the properties\<close>

text \<open>The steps a rule applies: its \<^verbatim>\<open>use\<close> chain, or its single \<^verbatim>\<open>loader\<close>.\<close>

definition rule_steps :: "rule \<Rightarrow> use_item list" where
  "rule_steps r =
     (case use r of
        Some (Use_array xs) \<Rightarrow> xs
      | Some (Use_single x) \<Rightarrow> [x]
      | None \<Rightarrow> (case loader r of Some l \<Rightarrow> [Loader_name l] | None \<Rightarrow> []))"

text \<open>A step whose options contain \<^verbatim>\<open>modules: {mode: "icss"}\<close>.\<close>

definition has_icss :: "use_item \<Rightarrow> bool" where
  "has_icss u =
     (case u of
        Loader_obj _ (JObj opts) \<Rightarrow>
          (case map_of opts ''modules'' of
             Some (JObj m) \<Rightarrow> map_of m ''mode'' = Some (JStr ''icss'')
           | _ \<Rightarrow> False)
      | _ \<Rightarrow> False)"

text \<open>The input ends, up to case, with the ASCII string \<open>a\<close>.\<close>

definition ends_with_ci :: "(code_unit \<Rightarrow> code_unit list) \<Rightarrow> string \<Rightarrow> js_string \<Rightarrow> bool" where
  "ends_with_ci upper a s = list_ex (list_all2 (chr_match upper True) a) (suffixes s)"

text \<open>The canonical forms of the last \<open>k\<close> code units of the input.\<close>

definition canon_tail :: "(code_unit \<Rightarrow> code_unit list) \<Rightarrow> nat \<Rightarrow> js_string \<Rightarrow> js_string" where
  "canon_tail upper k s = rev (take k (rev (map (canonicalize upper True) s)))"

text \<open>
  Which files get the \<^verbatim>\<open>:export\<close>/\<^verbatim>\<open>:import\<close> convention is decided by
  css-loader, which is not part of this repository. The repository's document says what
  the option written in the configuration does: a css-loader step with
  \<^verbatim>\<open>modules: {mode: "icss"}\<close> enables the convention. What a css-loader step
  does when it is not configured so is css-loader's own decision, from the step and the
  file name: the parameter \<open>other\<close>. No other loader of the configuration processes
  the convention.
\<close>

definition is_css_loader :: "use_item \<Rightarrow> bool" where
  "is_css_loader u =
     (case u of
        Extract_loader \<Rightarrow> False
      | Loader_name n \<Rightarrow> n = ''css-loader''
      | Loader_obj n _ \<Rightarrow> n = ''css-loader'')"

definition gets_export :: "(use_item \<Rightarrow> js_string \<Rightarrow> bool) \<Rightarrow> js_string \<Rightarrow> use_item \<Rightarrow> bool" where
  "gets_export other f u = (is_css_loader u \<and> (has_icss u \<or> other u f))"

text \<open>The bundler applies the steps of every rule whose test matches the file name.\<close>

definition routed_export ::
    "(use_item \<Rightarrow> js_string \<Rightarrow> bool) \<Rightarrow> (code_unit \<Rightarrow> code_unit list) \<Rightarrow>
     js_string \<Rightarrow> build_config \<Rightarrow> bool" where
  "routed_export other upper f c =
     list_ex (\<lambda>r. rx_test upper (test r) f \<and> list_ex (gets_export other f) (rule_steps r))
       (rules (module c))"

text \<open>
  Sample values of the parameters, for closed instances. The module lives in
  \<^verbatim>\<open>/app\<close>; \<open>posix_resolve\<close> resolves a path against an absolute directory
  as \<^verbatim>\<open>path.resolve\<close> does on POSIX (empty and \<^verbatim>\<open>.\<close> segments are dropped,
  \<^verbatim>\<open>..\<close> goes up, an absolute path replaces the directory).
\<close>

fun split_slash :: "string \<Rightarrow> string list" where
  "split_slash [] = [[]]"
| "split_slash (c # cs) =
     (if c = CHR ''/'' then [] # split_slash cs
      else (case split_slash cs of s # ss \<Rightarrow> (c # s) # ss | [] \<Rightarrow> [[c]]))"

fun resolve_segments :: "string list \<Rightarrow> string list \<Rightarrow> string list" where
  "resolve_segments acc [] = rev acc"
| "resolve_segments acc (s # ss) =
     (if s = [] \<or> s = ''.'' then resolve_segments acc ss
      else if s = ''..'' then resolve_segments (tl acc) ss
      else resolve_segments (s # acc) ss)"

definition posix_resolve :: "string \<Rightarrow> string \<Rightarrow> string" where
  "posix_resolve d p =
     (let full = (case p of
                    [] \<Rightarrow> d
                  | c # _ \<Rightarrow> if c = CHR ''/'' then p else d @ ''/'' @ p);
          segs = resolve_segments [] (split_slash full)
      in if segs = [] then ''/'' else concat (map (\<lambda>s. CHR ''/'' # s) segs))"

definition sample_host :: "js_string option \<Rightarrow> node_host" where
  "sample_host v = \<lparr>NODE_ENV = v, dirname = ''/app'', path_resolve = posix_resolve\<rparr>"

text \<open>An upper-casing table that leaves every non-ASCII code unit as it is.\<close>

definition plain_upper :: "code_unit \<Rightarrow> code_unit list" where
  "plain_upper c = [c]"

text \<open>
  A css-loader default that enables the convention by file name, for names ending in
  \<^verbatim>\<open>.icss.css\<close>: css-loader documents a default of this kind for a step without a
  \<^verbatim>\<open>modules\<close> option.
\<close>

definition icss_by_name :: "use_item \<Rightarrow> js_string \<Rightarrow> bool" where
  "icss_by_name u f = ends_with_ci plain_upper ''.icss.css'' f"

section \<open>The factory on the loaded module\<close>

text \<open>The two paths the module asks for, on the sample host.\<close>

lemma sample_paths:
  "path_resolve (sample_host v) (dirname (sample_host v)) ''dist'' = ''/app/dist''"
  "path_resolve (sample_host v) (dirname (sample_host v)) ''./src/'' = ''/app/src''"
  by (simp_all add: sample_host_def posix_resolve_def)

lemma exports_idem: "snd (exports (snd (exports st))) = snd (exports st)"
  by (cases "heap st (config st)") (simp_all add: exports_def assign_def Let_def)

lemma invoke_n_Suc: "invoke_n (Suc n) st = snd (exports st)"
  by (induction n arbitrary: st) (simp_all add: exports_idem)

lemma exports_exports: "exports (snd (exports st)) = exports st"
  by (cases "heap st (config st)") (simp_all add: exports_def assign_def Let_def)

lemma exports_invoke_n: "exports (invoke_n n st) = exports st"
  by (cases n) (simp_all add: invoke_n_Suc exports_exports del: invoke_n.simps(2))

text \<open>The object every invocation returns, written out.\<close>

lemma returned_load:
  "returned (exports (invoke_n n (load_module host))) =
     Some ((config_literal host Extract_loader (NODE_ENV host = Some (js ''production'')))
       \<lparr>mode := Some (if NODE_ENV host = Some (js ''production'')
                       then ''production'' else ''development''),
        devtool := (if NODE_ENV host = Some (js ''production'')
                    then None else Some ''source-map'')\<rparr>)"
  unfolding exports_invoke_n
  by (simp add: returned_def exports_def assign_def load_module_def Let_def config_literal_def)

section \<open>Matching, item by item\<close>

lemma rx_test_iff:
  "rx_test upper r s \<longleftrightarrow>
     (\<exists>t. suffix t s \<and> seq_match upper (ignoreCase r) (source r) t \<noteq> [])"
  by (auto simp: rx_test_def list_ex_iff)

lemma ends_with_ci_iff:
  "ends_with_ci upper a s \<longleftrightarrow> (\<exists>t. suffix t s \<and> list_all2 (chr_match upper True) a t)"
  by (auto simp: ends_with_ci_def list_ex_iff)

lemma concat_map_ne: "concat (map f xs) \<noteq> [] \<longleftrightarrow> (\<exists>x\<in>set xs. f x \<noteq> [])"
  by (induction xs) auto

lemma seq_Chr:
  "seq_match upper ic (Chr p # is) s \<noteq> [] \<longleftrightarrow>
     (\<exists>c t. s = c # t \<and> chr_match upper ic p c \<and> seq_match upper ic is t \<noteq> [])"
  by (cases s) (auto simp: concat_map_ne)

lemma seq_Cls:
  "seq_match upper ic (Cls ps # is) s \<noteq> [] \<longleftrightarrow>
     (\<exists>c t. s = c # t \<and> (\<exists>p\<in>set ps. chr_match upper ic p c) \<and>
        seq_match upper ic is t \<noteq> [])"
  by (cases s) (auto simp: concat_map_ne list_ex_iff)

lemma seq_Opt:
  "seq_match upper ic (Opt_chr p # is) s \<noteq> [] \<longleftrightarrow>
     (\<exists>c t. s = c # t \<and> chr_match upper ic p c \<and> seq_match upper ic is t \<noteq> []) \<or>
     seq_match upper ic is s \<noteq> []"
  by (cases s) (auto simp: concat_map_ne)

lemma seq_Eoi:
  "seq_match upper ic (Eoi # is) s \<noteq> [] \<longleftrightarrow> s = [] \<and> seq_match upper ic is [] \<noteq> []"
  by (auto simp: concat_map_ne)

lemma seq_lit:
  "concat (map (seq_match upper ic is) (lit_match upper ic a s)) =
     seq_match upper ic (map Chr a @ is) s"
  by (induction upper ic a s rule: lit_match.induct) auto

lemma seq_Grp:
  "seq_match upper ic (Grp alts # is) s \<noteq> [] \<longleftrightarrow>
     (\<exists>a\<in>set alts. seq_match upper ic (map Chr a @ is) s \<noteq> [])"
  by (induction alts) (auto simp: seq_lit)

lemma seq_lits:
  "seq_match upper ic (map Chr a @ [Eoi]) t \<noteq> [] \<longleftrightarrow> list_all2 (chr_match upper ic) a t"
proof (induction a arbitrary: t)
  case Nil
  show ?case by (simp add: seq_Eoi del: seq_match.simps(2))
next
  case (Cons p a)
  then show ?case
    by (simp add: seq_Chr list_all2_Cons1 del: seq_match.simps(2))
qed

lemma seq_pre_Cls:
  "seq_match upper ic (map Chr a @ Cls ps # is) s \<noteq> [] \<longleftrightarrow>
     (\<exists>p\<in>set ps. seq_match upper ic (map Chr (a @ [p]) @ is) s \<noteq> [])"
proof (induction a arbitrary: s)
  case Nil
  show ?case by (simp add: seq_Cls seq_Chr del: seq_match.simps(2)) blast
next
  case (Cons q a)
  show ?case
    by (simp add: seq_Chr [of _ _ q] Cons del: seq_match.simps(2)) blast
qed

lemma seq_pre_Grp:
  "seq_match upper ic (map Chr a @ Grp alts # is) s \<noteq> [] \<longleftrightarrow>
     (\<exists>b\<in>set alts. seq_match upper ic (map Chr (a @ b) @ is) s \<noteq> [])"
proof (induction a arbitrary: s)
  case Nil
  show ?case by (simp add: seq_Grp del: seq_match.simps(2))
next
  case (Cons q a)
  show ?case
    by (simp add: seq_Chr [of _ _ q] Cons del: seq_match.simps(2)) blast
qed

lemma rx_lits:
  "rx_test upper \<lparr>source = map Chr a @ [Eoi], ignoreCase = True\<rparr> s \<longleftrightarrow>
     ends_with_ci upper a s"
  by (simp add: rx_test_iff ends_with_ci_iff seq_lits del: seq_match.simps(2))

lemma rx_Cls:
  "rx_test upper \<lparr>source = map Chr a @ Cls ps # is, ignoreCase = ic\<rparr> s \<longleftrightarrow>
     (\<exists>p\<in>set ps. rx_test upper \<lparr>source = map Chr (a @ [p]) @ is, ignoreCase = ic\<rparr> s)"
  by (simp add: rx_test_iff seq_pre_Cls del: seq_match.simps(2) map_append) blast

lemma rx_Grp:
  "rx_test upper \<lparr>source = map Chr a @ Grp alts # is, ignoreCase = ic\<rparr> s \<longleftrightarrow>
     (\<exists>b\<in>set alts. rx_test upper \<lparr>source = map Chr (a @ b) @ is, ignoreCase = ic\<rparr> s)"
  by (simp add: rx_test_iff seq_pre_Grp del: seq_match.simps(2) map_append) blast

section \<open>What each test pattern accepts\<close>

lemma sass_ends:
  "rx_test upper sass_test s \<longleftrightarrow>
     ends_with_ci upper ''.sass'' s \<or> ends_with_ci upper ''.scss'' s"
proof -
  have eq: "sass_test =
      \<lparr>source = map Chr ''.s'' @ Cls ''ac'' # map Chr ''ss'' @ [Eoi], ignoreCase = True\<rparr>"
    by (simp add: sass_test_def)
  have "rx_test upper sass_test s \<longleftrightarrow>
      (\<exists>p\<in>set ''ac''. rx_test upper
         \<lparr>source = map Chr (''.s'' @ [p]) @ map Chr ''ss'' @ [Eoi], ignoreCase = True\<rparr> s)"
    unfolding eq by (rule rx_Cls)
  also have "\<dots> \<longleftrightarrow> (\<exists>p\<in>set ''ac''. rx_test upper
         \<lparr>source = map Chr (''.s'' @ [p] @ ''ss'') @ [Eoi], ignoreCase = True\<rparr> s)"
    by simp
  also have "\<dots> \<longleftrightarrow> (\<exists>p\<in>set ''ac''. ends_with_ci upper (''.s'' @ [p] @ ''ss'') s)"
    unfolding rx_lits ..
  also have "\<dots> \<longleftrightarrow> ends_with_ci upper ''.sass'' s \<or> ends_with_ci upper ''.scss'' s"
    by simp
  finally show ?thesis .
qed

lemma css_ends:
  "rx_test upper css_test s \<longleftrightarrow> ends_with_ci upper ''.css'' s"
proof -
  have eq: "css_test = \<lparr>source = map Chr ''.css'' @ [Eoi], ignoreCase = True\<rparr>"
    by (simp add: css_test_def)
  show ?thesis
    unfolding eq by (rule rx_lits)
qed

lemma ts_ends:
  "rx_test upper ts_test s \<longleftrightarrow>
     ends_with_ci upper ''.ts'' s \<or> ends_with_ci upper ''.tsx'' s"
proof -
  have eq: "ts_test =
      \<lparr>source = map Chr ''.'' @ Grp [''ts'', ''tsx''] # [Eoi], ignoreCase = True\<rparr>"
    by (simp add: ts_test_def)
  have "rx_test upper ts_test s \<longleftrightarrow>
      (\<exists>b\<in>set [''ts'', ''tsx'']. rx_test upper
         \<lparr>source = map Chr (''.'' @ b) @ [Eoi], ignoreCase = True\<rparr> s)"
    unfolding eq by (rule rx_Grp)
  also have "\<dots> \<longleftrightarrow> (\<exists>b\<in>set [''ts'', ''tsx'']. ends_with_ci upper (''.'' @ b) s)"
    unfolding rx_lits ..
  also have "\<dots> \<longleftrightarrow> ends_with_ci upper ''.ts'' s \<or> ends_with_ci upper ''.tsx'' s"
    by simp
  finally show ?thesis .
qed

lemma asset_ends:
  "rx_test upper asset_test s \<longleftrightarrow>
     ends_with_ci upper ''.eot'' s \<or> ends_with_ci upper ''.svg'' s \<or>
     ends_with_ci upper ''.ttf'' s \<or> ends_with_ci upper ''.woff'' s \<or>
     ends_with_ci upper ''.woff2'' s \<or> ends_with_ci upper ''.png'' s \<or>
     ends_with_ci upper ''.jpg'' s \<or> ends_with_ci upper ''.gif'' s"
proof -
  have eq: "asset_test = \<lparr>source = map Chr ''.'' @
      Grp [''eot'', ''svg'', ''ttf'', ''woff'', ''woff2'', ''png'', ''jpg'', ''gif''] # [Eoi],
      ignoreCase = True\<rparr>"
    by (simp add: asset_test_def)
  have "rx_test upper asset_test s \<longleftrightarrow>
      (\<exists>b\<in>set [''eot'', ''svg'', ''ttf'', ''woff'', ''woff2'', ''png'', ''jpg'', ''gif''].
         rx_test upper \<lparr>source = map Chr (''.'' @ b) @ [Eoi], ignoreCase = True\<rparr> s)"
    unfolding eq by (rule rx_Grp)
  also have "\<dots> \<longleftrightarrow>
      (\<exists>b\<in>set [''eot'', ''svg'', ''ttf'', ''woff'', ''woff2'', ''png'', ''jpg'', ''gif''].
         ends_with_ci upper (''.'' @ b) s)"
    unfolding rx_lits ..
  also have "\<dots> \<longleftrightarrow>
     ends_with_ci upper ''.eot'' s \<or> ends_with_ci upper ''.svg'' s \<or>
     ends_with_ci upper ''.ttf'' s \<or> ends_with_ci upper ''.woff'' s \<or>
     ends_with_ci upper ''.woff2'' s \<or> ends_with_ci upper ''.png'' s \<or>
     ends_with_ci upper ''.jpg'' s \<or> ends_with_ci upper ''.gif'' s"
    by simp
  finally show ?thesis .
qed

lemma js_ends:
  "rx_test upper js_test s \<longleftrightarrow> suffix (js ''js'') s"
  unfolding rx_test_iff js_test_def
  by (simp add: seq_Chr seq_Opt seq_Eoi chr_match_def canonicalize_def js_def
        del: seq_match.simps(2))
    (auto simp: suffix_def)

section \<open>The canonical ending of a matched name\<close>

lemma canon_ascii: "n < 128 \<Longrightarrow> canonicalize upper True n = ascii_upper n"
  by (simp add: canonicalize_def to_uppercase_def)

lemma suffix_canon_tail:
  assumes "suffix t s" and "k \<le> length t"
  shows "canon_tail upper k s = canon_tail upper k t"
proof -
  from assms(1) obtain z where "s = z @ t"
    by (auto simp: suffix_def)
  with assms(2) show ?thesis
    by (simp add: canon_tail_def)
qed

lemma ci_match_canon:
  assumes "list_all2 (chr_match upper True) a t"
    and "\<forall>p\<in>set a. of_char p < (128::nat)"
  shows "map (canonicalize upper True) t = map (\<lambda>p. ascii_upper (of_char p)) a"
  using assms
  by (induction a t rule: list_all2_induct) (simp_all add: chr_match_def canon_ascii)

lemma ends_with_ci_tail:
  assumes "ends_with_ci upper a s"
    and "\<forall>p\<in>set a. of_char p < (128::nat)"
    and "k \<le> length a"
  shows "canon_tail upper k s = rev (take k (rev (map (\<lambda>p. ascii_upper (of_char p)) a)))"
proof -
  from assms(1) obtain t where t: "suffix t s" "list_all2 (chr_match upper True) a t"
    by (auto simp: ends_with_ci_iff)
  from t(2) have len: "length t = length a"
    by (simp add: list_all2_lengthD)
  from t(2) assms(2)
  have "map (canonicalize upper True) t = map (\<lambda>p. ascii_upper (of_char p)) a"
    by (rule ci_match_canon)
  moreover from t(1) assms(3) len have "canon_tail upper k s = canon_tail upper k t"
    by (simp add: suffix_canon_tail)
  ultimately show ?thesis
    by (simp add: canon_tail_def)
qed

lemma sass_tail:
  assumes "rx_test upper sass_test s"
  shows "canon_tail upper 4 s = js ''SASS'' \<or> canon_tail upper 4 s = js ''SCSS''"
    and "canon_tail upper 2 s = js ''SS''"
proof -
  from assms consider "ends_with_ci upper ''.sass'' s" | "ends_with_ci upper ''.scss'' s"
    by (auto simp: sass_ends)
  then show "canon_tail upper 4 s = js ''SASS'' \<or> canon_tail upper 4 s = js ''SCSS''"
  proof cases
    case 1
    from ends_with_ci_tail [OF 1, of 4] show ?thesis
      by (simp add: js_def ascii_upper_def)
  next
    case 2
    from ends_with_ci_tail [OF 2, of 4] show ?thesis
      by (simp add: js_def ascii_upper_def)
  qed
  from assms consider "ends_with_ci upper ''.sass'' s" | "ends_with_ci upper ''.scss'' s"
    by (auto simp: sass_ends)
  then show "canon_tail upper 2 s = js ''SS''"
  proof cases
    case 1
    from ends_with_ci_tail [OF 1, of 2] show ?thesis
      by (simp add: js_def ascii_upper_def)
  next
    case 2
    from ends_with_ci_tail [OF 2, of 2] show ?thesis
      by (simp add: js_def ascii_upper_def)
  qed
qed

lemma css_tail:
  assumes "rx_test upper css_test s"
  shows "canon_tail upper 4 s = js ''.CSS''" and "canon_tail upper 2 s = js ''SS''"
proof -
  from assms have 1: "ends_with_ci upper ''.css'' s"
    by (simp add: css_ends)
  from ends_with_ci_tail [OF 1, of 4] show "canon_tail upper 4 s = js ''.CSS''"
    by (simp add: js_def ascii_upper_def)
  from ends_with_ci_tail [OF 1, of 2] show "canon_tail upper 2 s = js ''SS''"
    by (simp add: js_def ascii_upper_def)
qed

lemma js_tail:
  assumes "rx_test upper js_test s"
  shows "canon_tail upper 2 s = js ''JS''"
proof -
  from assms have "suffix (js ''js'') s"
    by (simp add: js_ends)
  then have "canon_tail upper 2 s = canon_tail upper 2 (js ''js'')"
    by (rule suffix_canon_tail) (simp add: js_def)
  then show ?thesis
    by (simp add: canon_tail_def js_def canon_ascii ascii_upper_def)
qed

lemma ts_tail:
  assumes "rx_test upper ts_test s"
  shows "canon_tail upper 2 s = js ''TS'' \<or> canon_tail upper 2 s = js ''SX''"
proof -
  from assms consider "ends_with_ci upper ''.ts'' s" | "ends_with_ci upper ''.tsx'' s"
    by (auto simp: ts_ends)
  then show ?thesis
  proof cases
    case 1
    from ends_with_ci_tail [OF 1, of 2] show ?thesis
      by (simp add: js_def ascii_upper_def)
  next
    case 2
    from ends_with_ci_tail [OF 2, of 2] show ?thesis
      by (simp add: js_def ascii_upper_def)
  qed
qed

lemma asset_tail:
  assumes "rx_test upper asset_test s"
  shows "canon_tail upper 2 s \<in>
    {js ''OT'', js ''VG'', js ''TF'', js ''FF'', js ''F2'', js ''NG'', js ''PG'', js ''IF''}"
proof -
  from assms consider
      "ends_with_ci upper ''.eot'' s" | "ends_with_ci upper ''.svg'' s"
    | "ends_with_ci upper ''.ttf'' s" | "ends_with_ci upper ''.woff'' s"
    | "ends_with_ci upper ''.woff2'' s" | "ends_with_ci upper ''.png'' s"
    | "ends_with_ci upper ''.jpg'' s" | "ends_with_ci upper ''.gif'' s"
    unfolding asset_ends by blast
  then show ?thesis
  proof cases
    case 1
    from ends_with_ci_tail [OF 1, of 2] show ?thesis by (simp add: js_def ascii_upper_def)
  next
    case 2
    from ends_with_ci_tail [OF 2, of 2] show ?thesis by (simp add: js_def ascii_upper_def)
  next
    case 3
    from ends_with_ci_tail [OF 3, of 2] show ?thesis by (simp add: js_def ascii_upper_def)
  next
    case 4
    from ends_with_ci_tail [OF 4, of 2] show ?thesis by (simp add: js_def ascii_upper_def)
  next
    case 5
    from ends_with_ci_tail [OF 5, of 2] show ?thesis by (simp add: js_def ascii_upper_def)
  next
    case 6
    from ends_with_ci_tail [OF 6, of 2] show ?thesis by (simp add: js_def ascii_upper_def)
  next
    case 7
    from ends_with_ci_tail [OF 7, of 2] show ?thesis by (simp add: js_def ascii_upper_def)
  next
    case 8
    from ends_with_ci_tail [OF 8, of 2] show ?thesis by (simp add: js_def ascii_upper_def)
  qed
qed

section \<open>No two test patterns match the same name\<close>

lemma sass_css_disjoint: "\<not> (rx_test upper sass_test f \<and> rx_test upper css_test f)"
  using sass_tail(1) [of upper f] css_tail(1) [of upper f] by (auto simp: js_def)

lemma sass_js_disjoint: "\<not> (rx_test upper sass_test f \<and> rx_test upper js_test f)"
  using sass_tail(2) [of upper f] js_tail [of upper f] by (auto simp: js_def)

lemma sass_ts_disjoint: "\<not> (rx_test upper sass_test f \<and> rx_test upper ts_test f)"
  using sass_tail(2) [of upper f] ts_tail [of upper f] by (auto simp: js_def)

lemma sass_asset_disjoint: "\<not> (rx_test upper sass_test f \<and> rx_test upper asset_test f)"
  using sass_tail(2) [of upper f] asset_tail [of upper f] by (auto simp: js_def)

lemma css_js_disjoint: "\<not> (rx_test upper css_test f \<and> rx_test upper js_test f)"
  using css_tail(2) [of upper f] js_tail [of upper f] by (auto simp: js_def)

lemma css_ts_disjoint: "\<not> (rx_test upper css_test f \<and> rx_test upper ts_test f)"
  using css_tail(2) [of upper f] ts_tail [of upper f] by (auto simp: js_def)

lemma css_asset_disjoint: "\<not> (rx_test upper css_test f \<and> rx_test upper asset_test f)"
  using css_tail(2) [of upper f] asset_tail [of upper f] by (auto simp: js_def)

lemma js_ts_disjoint: "\<not> (rx_test upper js_test f \<and> rx_test upper ts_test f)"
  using js_tail [of upper f] ts_tail [of upper f] by (auto simp: js_def)

lemma js_asset_disjoint: "\<not> (rx_test upper js_test f \<and> rx_test upper asset_test f)"
  using js_tail [of upper f] asset_tail [of upper f] by (auto simp: js_def)

lemma ts_asset_disjoint: "\<not> (rx_test upper ts_test f \<and> rx_test upper asset_test f)"
  using ts_tail [of upper f] asset_tail [of upper f] by (auto simp: js_def)


lemma at_most_one_pattern:
  "length (filter (\<lambda>t. rx_test upper t f)
     [sass_test, css_test, js_test, ts_test, asset_test]) \<le> 1"
proof -
  consider "rx_test upper sass_test f" | "rx_test upper css_test f" | "rx_test upper js_test f"
    | "rx_test upper ts_test f" | "rx_test upper asset_test f"
    | "\<not> rx_test upper sass_test f" "\<not> rx_test upper css_test f"
      "\<not> rx_test upper js_test f" "\<not> rx_test upper ts_test f"
      "\<not> rx_test upper asset_test f"
    by blast
  then show ?thesis
  proof cases
    case 1
    with sass_css_disjoint [of upper f] sass_js_disjoint [of upper f]
      sass_ts_disjoint [of upper f] sass_asset_disjoint [of upper f]
    show ?thesis by simp
  next
    case 2
    with sass_css_disjoint [of upper f] css_js_disjoint [of upper f]
      css_ts_disjoint [of upper f] css_asset_disjoint [of upper f]
    show ?thesis by simp
  next
    case 3
    with sass_js_disjoint [of upper f] css_js_disjoint [of upper f]
      js_ts_disjoint [of upper f] js_asset_disjoint [of upper f]
    show ?thesis by simp
  next
    case 4
    with sass_ts_disjoint [of upper f] css_ts_disjoint [of upper f]
      js_ts_disjoint [of upper f] ts_asset_disjoint [of upper f]
    show ?thesis by simp
  next
    case 5
    with sass_asset_disjoint [of upper f] css_asset_disjoint [of upper f]
      js_asset_disjoint [of upper f] ts_asset_disjoint [of upper f]
    show ?thesis by simp
  next
    case 6
    then show ?thesis by simp
  qed
qed

section \<open>Properties of the returned configuration\<close>

text \<open>
  C1. When \<^verbatim>\<open>NODE_ENV\<close> is the string \<^verbatim>\<open>production\<close>, every invocation of
  the factory (the first and each later one) returns a configuration whose mode is
  \<^verbatim>\<open>production\<close>, which has no \<^verbatim>\<open>devtool\<close> property, and whose sass/scss
  rule starts its chain with \<^verbatim>\<open>MiniCssExtractPlugin.loader\<close>. The variable is read
  once, when the module is loaded.
\<close>

theorem production_config:
  assumes "NODE_ENV host = Some (js ''production'')"
  shows "\<exists>c us. returned (exports (invoke_n n (load_module host))) = Some c \<and>
           mode c = Some ''production'' \<and>
           devtool c = None \<and>
           test (rules (module c) ! 0) = sass_test \<and>
           use (rules (module c) ! 0) = Some (Use_array (Extract_loader # us))"
  using assms by (simp add: returned_load config_literal_def)

theorem production_config_witness:
  "NODE_ENV (sample_host (Some (js ''production''))) = Some (js ''production'') \<and>
   (\<exists>c us. returned (exports (invoke_n 2 (load_module (sample_host (Some (js ''production'')))))) = Some c \<and>
           mode c = Some ''production'' \<and>
           devtool c = None \<and>
           test (rules (module c) ! 0) = sass_test \<and>
           use (rules (module c) ! 0) = Some (Use_array (Extract_loader # us)))"
proof -
  have h: "NODE_ENV (sample_host (Some (js ''production''))) = Some (js ''production'')"
    by (simp add: sample_host_def)
  show ?thesis
    using h production_config [OF h, of 2] by simp
qed

text \<open>
  C2. For every other value of \<^verbatim>\<open>NODE_ENV\<close> (undefined, empty, any other string)
  every invocation returns a configuration, without failure: its mode is
  \<^verbatim>\<open>development\<close>, its \<^verbatim>\<open>devtool\<close> is \<^verbatim>\<open>source-map\<close>, and its sass/scss
  rule starts its chain with \<^verbatim>\<open>style-loader\<close>.
\<close>

theorem development_config:
  assumes "NODE_ENV host \<noteq> Some (js ''production'')"
  shows "\<exists>c us. returned (exports (invoke_n n (load_module host))) = Some c \<and>
           mode c = Some ''development'' \<and>
           devtool c = Some ''source-map'' \<and>
           test (rules (module c) ! 0) = sass_test \<and>
           use (rules (module c) ! 0) = Some (Use_array (Loader_name ''style-loader'' # us))"
  using assms by (simp add: returned_load config_literal_def)

theorem development_config_witness:
  "NODE_ENV (sample_host None) \<noteq> Some (js ''production'') \<and>
   (\<exists>c us. returned (exports (invoke_n 0 (load_module (sample_host None)))) = Some c \<and>
           mode c = Some ''development'' \<and>
           devtool c = Some ''source-map'' \<and>
           test (rules (module c) ! 0) = sass_test \<and>
           use (rules (module c) ! 0) = Some (Use_array (Loader_name ''style-loader'' # us)))"
proof -
  have h: "NODE_ENV (sample_host None) \<noteq> Some (js ''production'')"
    by (simp add: sample_host_def)
  show ?thesis
    using h development_config [OF h, of 0] by simp
qed

text \<open>
  C3. Whatever the production flag is, any two invocations of the factory on the loaded
  module return structurally identical configurations: the object read after the
  invocation following \<open>n\<close> earlier ones equals the object read after the invocation
  following \<open>m\<close> earlier ones, and the flag is the same at every invocation.
\<close>

theorem invocations_agree:
  "returned (exports (invoke_n n (load_module host))) =
     returned (exports (invoke_n m (load_module host))) \<and>
   returned (exports (invoke_n n (load_module host))) \<noteq> None \<and>
   isProduction (invoke_n n (load_module host)) = isProduction (load_module host)"
proof -
  have "isProduction (snd (exports st)) = isProduction st" for st
    by (simp add: exports_def assign_def Let_def)
  then have "isProduction (invoke_n n (load_module host)) = isProduction (load_module host)"
    by (cases n) (simp_all add: invoke_n_Suc del: invoke_n.simps(2))
  then show ?thesis
    by (simp add: returned_load)
qed

text \<open>
  C4 (as the code has it). The factory is a total, deterministic function of the
  module state, but it does not build a fresh object: every invocation returns the
  reference \<^verbatim>\<open>config\<close>, the one object allocated when the module was loaded, and
  writes to that shared object. It reads \<^verbatim>\<open>isProduction\<close>; it allocates nothing;
  it leaves the module's constants and every other object alone; on the shared object it
  sets \<^verbatim>\<open>mode\<close> (and, outside production, \<^verbatim>\<open>devtool\<close>) and leaves every other
  property as it was. On the loaded module the store holds that one object and nothing
  else, after any number of invocations.
\<close>

theorem factory_frame:
  "fst (exports st) = config st \<and>
   config (snd (exports st)) = config st \<and>
   isProduction (snd (exports st)) = isProduction st \<and>
   stylesHandler (snd (exports st)) = stylesHandler st \<and>
   dom (heap (snd (exports st))) = dom (heap st) \<and>
   (heap (snd (exports st)))(config st := None) = (heap st)(config st := None) \<and>
   map_option (\<lambda>c. c\<lparr>mode := m, devtool := d\<rparr>) (heap (snd (exports st)) (config st)) =
     map_option (\<lambda>c. c\<lparr>mode := m, devtool := d\<rparr>) (heap st (config st)) \<and>
   map_option mode (heap (snd (exports st)) (config st)) =
     map_option (\<lambda>c. Some (if isProduction st then ''production'' else ''development''))
       (heap st (config st)) \<and>
   map_option devtool (heap (snd (exports st)) (config st)) =
     map_option (\<lambda>c. if isProduction st then devtool c else Some ''source-map'')
       (heap st (config st)) \<and>
   fst (exports (invoke_n n (load_module host))) = config (load_module host) \<and>
   dom (heap (invoke_n n (load_module host))) = {config (load_module host)}"
proof -
  have frame: "fst (exports st) = config st \<and>
   config (snd (exports st)) = config st \<and>
   isProduction (snd (exports st)) = isProduction st \<and>
   stylesHandler (snd (exports st)) = stylesHandler st \<and>
   dom (heap (snd (exports st))) = dom (heap st) \<and>
   (heap (snd (exports st)))(config st := None) = (heap st)(config st := None) \<and>
   map_option (\<lambda>c. c\<lparr>mode := m, devtool := d\<rparr>) (heap (snd (exports st)) (config st)) =
     map_option (\<lambda>c. c\<lparr>mode := m, devtool := d\<rparr>) (heap st (config st)) \<and>
   map_option mode (heap (snd (exports st)) (config st)) =
     map_option (\<lambda>c. Some (if isProduction st then ''production'' else ''development''))
       (heap st (config st)) \<and>
   map_option devtool (heap (snd (exports st)) (config st)) =
     map_option (\<lambda>c. if isProduction st then devtool c else Some ''source-map'')
       (heap st (config st))"
    by (cases "heap st (config st)")
      (auto simp: exports_def assign_def Let_def dom_def)
  have same: "fst (exports (invoke_n n (load_module host))) = config (load_module host)"
    unfolding exports_invoke_n by (simp add: exports_def Let_def)
  have "dom (heap (snd (exports st'))) = dom (heap st')" for st'
    by (cases "heap st' (config st')") (auto simp: exports_def assign_def Let_def dom_def)
  then have "dom (heap (invoke_n n (load_module host))) = dom (heap (load_module host))"
    by (cases n) (simp_all add: invoke_n_Suc del: invoke_n.simps(2))
  then have one: "dom (heap (invoke_n n (load_module host))) = {config (load_module host)}"
    by (simp add: load_module_def Let_def)
  from frame same one show ?thesis
    by (simp only: simp_thms)
qed

text \<open>
  The claim that each invocation constructs the object fresh and mutates no shared state
  fails on the module loaded with \<^verbatim>\<open>NODE_ENV\<close> undefined: the second invocation
  returns the same reference as the first, that reference was already allocated before
  the first invocation, and the invocation changed the stored object (its mode was
  absent before and is \<^verbatim>\<open>development\<close> after).
\<close>

theorem fresh_object_counterexample:
  "fst (exports (snd (exports (load_module (sample_host None))))) =
     fst (exports (load_module (sample_host None))) \<and>
   fst (exports (load_module (sample_host None))) \<in> dom (heap (load_module (sample_host None))) \<and>
   snd (exports (load_module (sample_host None))) \<noteq> load_module (sample_host None) \<and>
   map_option mode (heap (load_module (sample_host None)) 0) = Some None \<and>
   map_option mode (heap (snd (exports (load_module (sample_host None)))) 0) =
     Some (Some ''development'')"
proof -
  have before: "map_option mode (heap (load_module (sample_host None)) 0) = Some None"
    by (simp add: load_module_def Let_def config_literal_def)
  have after: "map_option mode (heap (snd (exports (load_module (sample_host None)))) 0) =
      Some (Some ''development'')"
    by (simp add: exports_def assign_def load_module_def Let_def config_literal_def
        sample_host_def)
  from before after
  have changed: "snd (exports (load_module (sample_host None))) \<noteq> load_module (sample_host None)"
    by auto
  have same: "fst (exports (snd (exports (load_module (sample_host None))))) =
      fst (exports (load_module (sample_host None)))"
    by (simp add: exports_exports)
  have old: "fst (exports (load_module (sample_host None))) \<in>
      dom (heap (load_module (sample_host None)))"
    by (simp add: exports_def load_module_def Let_def)
  from same old changed before after show ?thesis
    by (intro conjI)
qed

text \<open>
  C5. The configuration returned in production and the one returned for any other value
  of \<^verbatim>\<open>NODE_ENV\<close> (same directory, same \<^verbatim>\<open>path.resolve\<close>) have rule sequences
  of the same length with the same test patterns in the same order; they differ only in
  the first step of the sass/scss rule, in \<^verbatim>\<open>mode\<close> and in \<^verbatim>\<open>devtool\<close>: the
  rules are \<open>r # rs\<close> for a common \<open>r\<close> and \<open>rs\<close> up to the head of the first
  chain, and every other property of the two objects is equal.
\<close>

theorem branches_differ_in_three_places:
  assumes "v \<noteq> Some (js ''production'')"
  shows "\<exists>cp cd r us rs.
     returned (exports (invoke_n n
         (load_module (host\<lparr>NODE_ENV := Some (js ''production'')\<rparr>)))) = Some cp \<and>
     returned (exports (invoke_n m (load_module (host\<lparr>NODE_ENV := v\<rparr>)))) = Some cd \<and>
     length (rules (module cp)) = length (rules (module cd)) \<and>
     set (map test (rules (module cp))) = set (map test (rules (module cd))) \<and>
     map test (rules (module cp)) = map test (rules (module cd)) \<and>
     test r = sass_test \<and>
     rules (module cp) = r\<lparr>use := Some (Use_array (Extract_loader # us))\<rparr> # rs \<and>
     rules (module cd) =
       r\<lparr>use := Some (Use_array (Loader_name ''style-loader'' # us))\<rparr> # rs \<and>
     mode cp = Some ''production'' \<and> mode cd = Some ''development'' \<and>
     devtool cp = None \<and> devtool cd = Some ''source-map'' \<and>
     cd = cp\<lparr>mode := mode cd, devtool := devtool cd, module := module cd\<rparr>"
proof -
  define cp where "cp = (config_literal host Extract_loader True)\<lparr>mode := Some ''production''\<rparr>"
  define cd where "cd = (config_literal host Extract_loader False)
      \<lparr>mode := Some ''development'', devtool := Some ''source-map''\<rparr>"
  define r where "r = hd (rules (module cp))"
  define us where "us = [Loader_obj ''css-loader'' (JObj [
            (''sourceMap'', JBool True),
            (''importLoaders'', JNum 1),
            (''modules'', JObj [(''mode'', JStr ''icss'')])]),
          Loader_name ''postcss-loader'',
          Loader_name ''sass-loader'']"
  define rs where "rs = tl (rules (module cp))"
  have p: "returned (exports (invoke_n n
      (load_module (host\<lparr>NODE_ENV := Some (js ''production'')\<rparr>)))) = Some cp"
    by (simp add: returned_load cp_def config_literal_def)
  have d: "returned (exports (invoke_n m (load_module (host\<lparr>NODE_ENV := v\<rparr>)))) = Some cd"
    using assms by (simp add: returned_load cd_def config_literal_def)
  have rp: "rules (module cp) = r\<lparr>use := Some (Use_array (Extract_loader # us))\<rparr> # rs"
    by (simp add: r_def us_def rs_def cp_def config_literal_def)
  have rd: "rules (module cd) =
      r\<lparr>use := Some (Use_array (Loader_name ''style-loader'' # us))\<rparr> # rs"
    by (simp add: r_def us_def rs_def cp_def cd_def config_literal_def)
  have tr: "test r = sass_test"
    by (simp add: r_def cp_def config_literal_def)
  have mp: "mode cp = Some ''production''" and dp: "devtool cp = None"
    by (simp_all add: cp_def config_literal_def)
  have md: "mode cd = Some ''development''" and dd: "devtool cd = Some ''source-map''"
    by (simp_all add: cd_def)
  have eq: "cd = cp\<lparr>mode := mode cd, devtool := devtool cd, module := module cd\<rparr>"
    by (simp add: cp_def cd_def config_literal_def)
  have len: "length (rules (module cp)) = length (rules (module cd))"
    unfolding rp rd by simp
  have tests: "map test (rules (module cp)) = map test (rules (module cd))"
    unfolding rp rd by simp
  then have sets: "set (map test (rules (module cp))) = set (map test (rules (module cd)))"
    by (rule arg_cong)
  show ?thesis
  proof (intro exI conjI)
    show "returned (exports (invoke_n n
        (load_module (host\<lparr>NODE_ENV := Some (js ''production'')\<rparr>)))) = Some cp"
      by (rule p)
    show "returned (exports (invoke_n m (load_module (host\<lparr>NODE_ENV := v\<rparr>)))) = Some cd"
      by (rule d)
  qed (rule len sets tests tr rp rd mp md dp dd eq)+
qed

theorem branches_differ_in_three_places_witness:
  "(None :: js_string option) \<noteq> Some (js ''production'') \<and>
   (\<exists>cp cd r us rs.
     returned (exports (invoke_n 0
         (load_module ((sample_host None)\<lparr>NODE_ENV := Some (js ''production'')\<rparr>)))) = Some cp \<and>
     returned (exports (invoke_n 1 (load_module ((sample_host None)\<lparr>NODE_ENV := None\<rparr>)))) = Some cd \<and>
     length (rules (module cp)) = length (rules (module cd)) \<and>
     set (map test (rules (module cp))) = set (map test (rules (module cd))) \<and>
     map test (rules (module cp)) = map test (rules (module cd)) \<and>
     test r = sass_test \<and>
     rules (module cp) = r\<lparr>use := Some (Use_array (Extract_loader # us))\<rparr> # rs \<and>
     rules (module cd) =
       r\<lparr>use := Some (Use_array (Loader_name ''style-loader'' # us))\<rparr> # rs \<and>
     mode cp = Some ''production'' \<and> mode cd = Some ''development'' \<and>
     devtool cp = None \<and> devtool cd = Some ''source-map'' \<and>
     cd = cp\<lparr>mode := mode cd, devtool := devtool cd, module := module cd\<rparr>)"
proof -
  have h: "(None :: js_string option) \<noteq> Some (js ''production'')"
    by simp
  show ?thesis
  proof (rule conjI)
    show "(None :: js_string option) \<noteq> Some (js ''production'')"
      by (rule h)
    show "\<exists>cp cd r us rs.
     returned (exports (invoke_n 0
         (load_module ((sample_host None)\<lparr>NODE_ENV := Some (js ''production'')\<rparr>)))) = Some cp \<and>
     returned (exports (invoke_n 1 (load_module ((sample_host None)\<lparr>NODE_ENV := None\<rparr>)))) = Some cd \<and>
     length (rules (module cp)) = length (rules (module cd)) \<and>
     set (map test (rules (module cp))) = set (map test (rules (module cd))) \<and>
     map test (rules (module cp)) = map test (rules (module cd)) \<and>
     test r = sass_test \<and>
     rules (module cp) = r\<lparr>use := Some (Use_array (Extract_loader # us))\<rparr> # rs \<and>
     rules (module cd) =
       r\<lparr>use := Some (Use_array (Loader_name ''style-loader'' # us))\<rparr> # rs \<and>
     mode cp = Some ''production'' \<and> mode cd = Some ''development'' \<and>
     devtool cp = None \<and> devtool cd = Some ''source-map'' \<and>
     cd = cp\<lparr>mode := mode cd, devtool := devtool cd, module := module cd\<rparr>"
      by (rule branches_differ_in_three_places
         [OF h, where host = "sample_host None" and n = 0 and m = 1])
  qed
qed

text \<open>
  C6. In the returned configuration of either branch the rules carry the five test
  patterns in the order of the source (sass/scss, css, js, ts/tsx, assets), and no file
  name is matched by the test patterns of two rules: for every string, at most one rule's
  pattern matches. This holds for every Unicode upper-casing table \<open>upper\<close>.
\<close>

theorem test_patterns_disjoint:
  "\<exists>c. returned (exports (invoke_n n (load_module host))) = Some c \<and>
     map test (rules (module c)) = [sass_test, css_test, js_test, ts_test, asset_test] \<and>
     length (filter (\<lambda>r. rx_test upper (test r) f) (rules (module c))) \<le> 1"
proof -
  define c where "c = (config_literal host Extract_loader (NODE_ENV host = Some (js ''production'')))
       \<lparr>mode := Some (if NODE_ENV host = Some (js ''production'')
                       then ''production'' else ''development''),
        devtool := (if NODE_ENV host = Some (js ''production'')
                    then None else Some ''source-map'')\<rparr>"
  have r: "returned (exports (invoke_n n (load_module host))) = Some c"
    unfolding c_def by (rule returned_load)
  have t: "map test (rules (module c)) = [sass_test, css_test, js_test, ts_test, asset_test]"
    by (simp add: c_def config_literal_def)
  have "length (filter (\<lambda>r. rx_test upper (test r) f) (rules (module c))) =
      length (filter (\<lambda>t. rx_test upper t f) (map test (rules (module c))))"
    by (simp add: filter_map comp_def)
  also have "\<dots> \<le> 1"
    unfolding t by (rule at_most_one_pattern)
  finally have le: "length (filter (\<lambda>r. rx_test upper (test r) f) (rules (module c))) \<le> 1" .
  show ?thesis
  proof (intro exI conjI)
    show "returned (exports (invoke_n n (load_module host))) = Some c" by (rule r)
    show "map test (rules (module c)) = [sass_test, css_test, js_test, ts_test, asset_test]"
      by (rule t)
    show "length (filter (\<lambda>r. rx_test upper (test r) f) (rules (module c))) \<le> 1"
      by (rule le)
  qed
qed

text \<open>
  C7. The third rule's pattern \<^verbatim>\<open>/\.?js$/\<close> matches the name \<^verbatim>\<open>plainjs\<close>, which
  ends in \<^verbatim>\<open>js\<close> with no dot before it.
\<close>

theorem js_pattern_loose:
  "\<exists>c. returned (exports (invoke_n n (load_module host))) = Some c \<and>
     test (rules (module c) ! 2) = js_test \<and>
     rx_test upper (test (rules (module c) ! 2)) (js ''plainjs'') \<and>
     suffix (js ''js'') (js ''plainjs'') \<and>
     \<not> suffix (js ''.js'') (js ''plainjs'')"
proof -
  have "rx_test upper js_test (js ''plain'' @ js ''js'')"
    unfolding js_ends by (rule suffix_appendI) simp
  moreover have "js ''plain'' @ js ''js'' = js ''plainjs''"
    by (simp add: js_def)
  moreover have "\<not> suffix (js ''.js'') (js ''plainjs'')"
    by (simp add: js_def suffix_Cons)
  moreover have "suffix (js ''js'') (js ''plainjs'')"
    by (simp add: js_def suffix_Cons)
  ultimately show ?thesis
    by (simp add: returned_load config_literal_def)
qed

text \<open>
  C8. In both branches the alias mapping of the returned configuration has exactly one
  entry: \<^verbatim>\<open>@\<close> is mapped to \<^verbatim>\<open>path.resolve(__dirname, './src/')\<close>.
\<close>

theorem alias_entry:
  "\<exists>c. returned (exports (invoke_n n (load_module host))) = Some c \<and>
     alias (resolve c) = [(''@'', path_resolve host (dirname host) ''./src/'')]"
  by (simp add: returned_load config_literal_def)

text \<open>
  C9. In both branches the second rule, for plain \<^verbatim>\<open>.css\<close> files, is the same: its
  chain starts with \<^verbatim>\<open>MiniCssExtractPlugin.loader\<close>, also in development; the branch
  does not touch it.
\<close>

theorem css_rule_extracts:
  "\<exists>c. returned (exports (invoke_n n (load_module host))) = Some c \<and>
     rules (module c) ! 1 =
       \<lparr>test = css_test, exclude = None,
        use = Some (Use_array [Extract_loader, Loader_name ''css-loader'',
                               Loader_name ''postcss-loader'']),
        loader = None, type = None\<rparr>"
  by (simp add: returned_load config_literal_def)

text \<open>
  C10 (as the code has it). In every returned configuration the option
  \<^verbatim>\<open>modules: {mode: "icss"}\<close> is written on exactly one step, the
  \<^verbatim>\<open>css-loader\<close> step (the second) of the sass/scss rule; the \<^verbatim>\<open>css-loader\<close>
  step of the plain \<^verbatim>\<open>.css\<close> rule is the bare loader name, without options. So a
  file name is routed to a step carrying the option exactly when it matches the sass/scss
  pattern, that is, ends in \<^verbatim>\<open>.sass\<close> or \<^verbatim>\<open>.scss\<close> up to case. Which files
  get the \<^verbatim>\<open>:export\<close> convention is then: the sass/scss files, and those plain
  \<^verbatim>\<open>.css\<close> files for which css-loader itself, given the bare step, enables it; no
  other file. The configuration does not switch css-loader's own default off.
\<close>

theorem icss_only_on_sass_rule:
  "\<exists>c. returned (exports (invoke_n n (load_module host))) = Some c \<and>
     map (\<lambda>r. map has_icss (rule_steps r)) (rules (module c)) =
       [[False, True, False, False], [False, False, False], [False], [False], []] \<and>
     rule_steps (rules (module c) ! 0) ! 1 =
       Loader_obj ''css-loader'' (JObj [
         (''sourceMap'', JBool True),
         (''importLoaders'', JNum 1),
         (''modules'', JObj [(''mode'', JStr ''icss'')])]) \<and>
     rule_steps (rules (module c) ! 1) ! 1 = Loader_name ''css-loader'' \<and>
     list_ex (\<lambda>r. rx_test upper (test r) f \<and> list_ex has_icss (rule_steps r))
       (rules (module c)) = rx_test upper sass_test f \<and>
     rx_test upper sass_test f =
       (ends_with_ci upper ''.sass'' f \<or> ends_with_ci upper ''.scss'' f) \<and>
     routed_export other upper f c =
       (rx_test upper sass_test f \<or>
        rx_test upper css_test f \<and> other (Loader_name ''css-loader'') f)"
proof -
  define c where "c = (config_literal host Extract_loader (NODE_ENV host = Some (js ''production'')))
       \<lparr>mode := Some (if NODE_ENV host = Some (js ''production'')
                       then ''production'' else ''development''),
        devtool := (if NODE_ENV host = Some (js ''production'')
                    then None else Some ''source-map'')\<rparr>"
  have r: "returned (exports (invoke_n n (load_module host))) = Some c"
    unfolding c_def by (rule returned_load)
  have i: "map (\<lambda>r. map has_icss (rule_steps r)) (rules (module c)) =
       [[False, True, False, False], [False, False, False], [False], [False], []]"
    by (simp add: c_def config_literal_def rule_steps_def has_icss_def)
  have s0: "rule_steps (rules (module c) ! 0) ! 1 =
       Loader_obj ''css-loader'' (JObj [
         (''sourceMap'', JBool True),
         (''importLoaders'', JNum 1),
         (''modules'', JObj [(''mode'', JStr ''icss'')])])"
    by (simp add: c_def config_literal_def rule_steps_def)
  have s1: "rule_steps (rules (module c) ! 1) ! 1 = Loader_name ''css-loader''"
    by (simp add: c_def config_literal_def rule_steps_def)
  have m: "map (\<lambda>r. (test r, list_ex has_icss (rule_steps r))) (rules (module c)) =
      [(sass_test, True), (css_test, False), (js_test, False), (ts_test, False),
       (asset_test, False)]"
    by (simp add: c_def config_literal_def rule_steps_def has_icss_def)
  have "list_ex (\<lambda>r. rx_test upper (test r) f \<and> list_ex has_icss (rule_steps r))
       (rules (module c)) =
     list_ex (\<lambda>p. rx_test upper (fst p) f \<and> snd p)
       (map (\<lambda>r. (test r, list_ex has_icss (rule_steps r))) (rules (module c)))"
    by (simp add: list_ex_iff)
  also have "\<dots> = rx_test upper sass_test f"
    unfolding m by simp
  finally have e: "list_ex (\<lambda>r. rx_test upper (test r) f \<and> list_ex has_icss (rule_steps r))
       (rules (module c)) = rx_test upper sass_test f" .
  have g: "map (\<lambda>r. (test r, list_ex (gets_export other f) (rule_steps r))) (rules (module c)) =
      [(sass_test, True), (css_test, other (Loader_name ''css-loader'') f), (js_test, False),
       (ts_test, False), (asset_test, False)]"
    by (simp add: c_def config_literal_def rule_steps_def gets_export_def is_css_loader_def
        has_icss_def)
  have "routed_export other upper f c =
     list_ex (\<lambda>p. rx_test upper (fst p) f \<and> snd p)
       (map (\<lambda>r. (test r, list_ex (gets_export other f) (rule_steps r))) (rules (module c)))"
    by (simp add: routed_export_def list_ex_iff)
  also have "\<dots> = (rx_test upper sass_test f \<or>
        rx_test upper css_test f \<and> other (Loader_name ''css-loader'') f)"
    unfolding g by simp
  finally have x: "routed_export other upper f c =
       (rx_test upper sass_test f \<or>
        rx_test upper css_test f \<and> other (Loader_name ''css-loader'') f)" .
  show ?thesis
  proof (intro exI conjI)
    show "returned (exports (invoke_n n (load_module host))) = Some c" by (rule r)
  qed (rule i s0 s1 e sass_ends x)+
qed

text \<open>
  That only sass/scss files get the convention does not follow from the configuration:
  with a css-loader default that enables it by file name, \<^verbatim>\<open>theme.icss.css\<close>
  gets it on the module loaded with \<^verbatim>\<open>NODE_ENV\<close> undefined. The name matches the
  plain \<^verbatim>\<open>.css\<close> pattern and not the sass/scss one, and the step it reaches
  carries no \<^verbatim>\<open>icss\<close> option.
\<close>

theorem export_only_sass_counterexample:
  "map_option (routed_export icss_by_name plain_upper (js ''theme.icss.css''))
     (returned (exports (load_module (sample_host None)))) = Some True \<and>
   rx_test plain_upper css_test (js ''theme.icss.css'') \<and>
   \<not> rx_test plain_upper sass_test (js ''theme.icss.css'') \<and>
   \<not> has_icss (Loader_name ''css-loader'')"
proof -
  have e: "ends_with_ci plain_upper ''.icss.css'' (js ''theme.icss.css'')"
    by (simp add: ends_with_ci_def js_def chr_match_def canonicalize_def to_uppercase_def
        ascii_upper_def)
  have c: "rx_test plain_upper css_test (js ''theme.icss.css'')"
    by (simp add: rx_test_def css_test_def js_def chr_match_def canonicalize_def
        to_uppercase_def ascii_upper_def)
  have s: "\<not> rx_test plain_upper sass_test (js ''theme.icss.css'')"
    by (simp add: rx_test_def sass_test_def js_def chr_match_def canonicalize_def
        to_uppercase_def ascii_upper_def)
  have h: "\<not> has_icss (Loader_name ''css-loader'')"
    by (simp add: has_icss_def)
  have r: "returned (exports (load_module (sample_host None))) =
      returned (exports (invoke_n 0 (load_module (sample_host None))))"
    by simp
  have "map_option (routed_export icss_by_name plain_upper (js ''theme.icss.css''))
     (returned (exports (load_module (sample_host None)))) = Some True"
    unfolding r returned_load
    using c e
    by (simp add: routed_export_def config_literal_def rule_steps_def gets_export_def
        is_css_loader_def icss_by_name_def)
  with c s h show ?thesis
    by (intro conjI)
qed

end
